theory Spec2Isabelle
  imports Complex_Main "HOL-Library.AList"
begin

section \<open>SensorBoard Live: ingestion endpoint and traffic simulator\<close>

text \<open>
  The development embeds two parts of the repository:
  \<^item> the edge function \<^verbatim>\<open>supabase/functions/ingest/index.ts\<close> (the request handler given to
    \<^verbatim>\<open>Deno.serve\<close>), together with the tables of the SQL migration it reads and writes;
  \<^item> the React context \<^verbatim>\<open>SimulatorContext\<close> (\<^verbatim>\<open>generateValue\<close>, \<^verbatim>\<open>sendReading\<close>,
    \<^verbatim>\<open>startSimulator\<close>, \<^verbatim>\<open>stopSimulator\<close>, the interval callback and the cleanup effect).

  JavaScript numbers are modelled as real numbers with exact arithmetic, \<^verbatim>\<open>Math.random()\<close> as
  a draw handed to the function as an argument, wall-clock timestamps are left out (no
  function branches on them), and uuid columns are natural numbers.
\<close>

subsection \<open>JSON values of the declared payload types\<close>

text \<open>
  A property of a parsed JSON object is missing (\<^verbatim>\<open>undefined\<close>), \<^verbatim>\<open>null\<close>, or a value of the
  type the TypeScript interface declares for it (\<^verbatim>\<open>SensorReading\<close>, \<^verbatim>\<open>IngestPayload\<close>). Values
  of other JSON types in these places, such as a number for \<^verbatim>\<open>sensor_name\<close> or an object for
  \<^verbatim>\<open>readings\<close>, are outside the model.
\<close>

datatype 'a js = Undefined | Null | Val 'a

record SensorReading =
  sensor_name :: "string js"
  reading_value :: "real js"

record IngestPayload =
  device_key :: "string js"
  readings :: "SensorReading js list js"

record Request =
  req_method :: string
  json :: "IngestPayload option"  \<comment> \<open>\<open>None\<close>: \<^verbatim>\<open>await req.json()\<close> rejects\<close>

text \<open>\<^verbatim>\<open>!x\<close> on a string-typed property: missing, null and the empty string are falsy.\<close>

definition falsy :: "string js \<Rightarrow> bool" where
  "falsy x = (case x of Undefined \<Rightarrow> True | Null \<Rightarrow> True | Val s \<Rightarrow> s = [])"

text \<open>\<^verbatim>\<open>x === undefined || x === null\<close>.\<close>

definition nullish :: "'a js \<Rightarrow> bool" where
  "nullish x = (case x of Undefined \<Rightarrow> True | Null \<Rightarrow> True | Val _ \<Rightarrow> False)"

subsection \<open>The entity store\<close>

type_synonym uuid = nat

record Device =
  device_id_col :: uuid
  user_id :: uuid
  api_key :: string

record Sensor =
  sensor_id_col :: uuid
  device_id :: uuid
  name :: string
  type :: string
  unit :: string

record Reading =
  reading_id :: nat
  sensor_id :: uuid
  reading_val :: real

datatype store_call =
    Select_device string
  | Select_sensor uuid string
  | Insert_sensor uuid string string string
  | Insert_reading uuid real

datatype store_error = Store_unavailable | Multiple_rows | Unique_violation | Foreign_key_violation

text \<open>
  Every store call is an \<^verbatim>\<open>await\<close>: before it is served the environment may do nothing, make
  this call fail (network or store outage), or let a concurrent request create a sensor row
  (another request's first sighting of the same name).
\<close>

datatype env_event = Quiet | Fault | Concurrent_sensor uuid string

record backend =
  devices :: "Device list"
  sensors :: "Sensor list"
  readings_tbl :: "Reading list"
  fresh :: nat
  pending :: "env_event list"
  issued :: "store_call list"  \<comment> \<open>the calls this request has made, in order\<close>

definition sensor_rows :: "uuid \<Rightarrow> string \<Rightarrow> backend \<Rightarrow> Sensor list" where
  "sensor_rows d n b = filter (\<lambda>s. device_id s = d \<and> name s = n) (sensors b)"

text \<open>A row insert into \<^verbatim>\<open>sensors\<close>, under \<^verbatim>\<open>UNIQUE(device_id, name)\<close> and the foreign key.\<close>

definition add_sensor :: "uuid \<Rightarrow> string \<Rightarrow> string \<Rightarrow> string \<Rightarrow> backend \<Rightarrow> (store_error + Sensor) \<times> backend" where
  "add_sensor d n t u b =
     (if sensor_rows d n b \<noteq> [] then (Inl Unique_violation, b)
      else if \<not> list_ex (\<lambda>dev. device_id_col dev = d) (devices b) then (Inl Foreign_key_violation, b)
      else let row = \<lparr>sensor_id_col = fresh b, device_id = d, name = n, type = t, unit = u\<rparr>
           in (Inr row, b\<lparr>sensors := sensors b @ [row], fresh := Suc (fresh b)\<rparr>))"

fun next_event :: "env_event list \<Rightarrow> env_event" where
  "next_event [] = Quiet"
| "next_event (e # es) = e"

fun interfere :: "env_event \<Rightarrow> backend \<Rightarrow> backend" where
  "interfere (Concurrent_sensor d n) b = snd (add_sensor d n n [] b)"
| "interfere _ b = b"

text \<open>The call is logged, one environment event is consumed and takes effect.\<close>

definition begin_call :: "store_call \<Rightarrow> backend \<Rightarrow> env_event \<times> backend" where
  "begin_call c b =
     (let e = next_event (pending b)
      in (e, interfere e (b\<lparr>pending := tl (pending b), issued := issued b @ [c]\<rparr>)))"

text \<open>\<^verbatim>\<open>.maybeSingle()\<close>: no row is \<^verbatim>\<open>data: null\<close> without error, several rows are an error.\<close>

fun maybeSingle :: "'a list \<Rightarrow> store_error + 'a option" where
  "maybeSingle [] = Inr None"
| "maybeSingle [x] = Inr (Some x)"
| "maybeSingle (x # y # zs) = Inl Multiple_rows"

definition select_device :: "string \<Rightarrow> backend \<Rightarrow> (store_error + Device option) \<times> backend" where
  "select_device k b =
     (let (e, b1) = begin_call (Select_device k) b
      in if e = Fault then (Inl Store_unavailable, b1)
         else (maybeSingle (filter (\<lambda>d. api_key d = k) (devices b1)), b1))"

definition select_sensor :: "uuid \<Rightarrow> string \<Rightarrow> backend \<Rightarrow> (store_error + Sensor option) \<times> backend" where
  "select_sensor d n b =
     (let (e, b1) = begin_call (Select_sensor d n) b
      in if e = Fault then (Inl Store_unavailable, b1)
         else (maybeSingle (sensor_rows d n b1), b1))"

definition insert_sensor :: "uuid \<Rightarrow> string \<Rightarrow> string \<Rightarrow> string \<Rightarrow> backend \<Rightarrow> (store_error + Sensor) \<times> backend" where
  "insert_sensor d n t u b =
     (let (e, b1) = begin_call (Insert_sensor d n t u) b
      in if e = Fault then (Inl Store_unavailable, b1) else add_sensor d n t u b1)"

definition insert_reading :: "uuid \<Rightarrow> real \<Rightarrow> backend \<Rightarrow> (store_error + Reading) \<times> backend" where
  "insert_reading s v b =
     (let (e, b1) = begin_call (Insert_reading s v) b
      in if e = Fault then (Inl Store_unavailable, b1)
         else if \<not> list_ex (\<lambda>row. sensor_id_col row = s) (sensors b1) then (Inl Foreign_key_violation, b1)
         else let row = \<lparr>reading_id = length (readings_tbl b1), sensor_id = s, reading_val = v\<rparr>
              in (Inr row, b1\<lparr>readings_tbl := readings_tbl b1 @ [row]\<rparr>))"

subsection \<open>The request handler\<close>

datatype body =
    No_body
  | Error_body string
  | Server_error
  | Success uuid nat  \<comment> \<open>\<^verbatim>\<open>device_id\<close>, \<^verbatim>\<open>readings_inserted\<close>\<close>

record Response =
  status :: nat
  payload :: body

datatype thrown = Json_rejected | Type_error

text \<open>\<^verbatim>\<open>let { data: sensor } = ...\<close>: the error of the lookup is dropped, \<^verbatim>\<open>data\<close> is null on it.\<close>

fun data_of :: "store_error + 'a option \<Rightarrow> 'a option" where
  "data_of (Inl e) = None"
| "data_of (Inr d) = d"

text \<open>
  One iteration of \<^verbatim>\<open>for (const reading of readings)\<close>. The result is the array
  \<^verbatim>\<open>insertedReadings\<close> after the iteration, or the exception the iteration throws
  (destructuring a \<^verbatim>\<open>null\<close> element).
\<close>

definition ingest_entry :: "Device \<Rightarrow> SensorReading js \<Rightarrow> Reading list \<Rightarrow> backend \<Rightarrow> (thrown + Reading list) \<times> backend" where
  "ingest_entry device reading insertedReadings b =
     (case reading of
        Undefined \<Rightarrow> (Inl Type_error, b)
      | Null \<Rightarrow> (Inl Type_error, b)
      | Val r \<Rightarrow>
          if falsy (sensor_name r) \<or> nullish (reading_value r) then (Inr insertedReadings, b)
          else (case (sensor_name r, reading_value r) of
              (Val n, Val v) \<Rightarrow>
                (let (found, b1) = select_sensor (device_id_col device) n b
                 in case data_of found of
                      Some sensor \<Rightarrow>
                        (case insert_reading (sensor_id_col sensor) v b1 of
                           (Inl readingError, b2) \<Rightarrow> (Inr insertedReadings, b2)
                         | (Inr readingData, b2) \<Rightarrow> (Inr (insertedReadings @ [readingData]), b2))
                    | None \<Rightarrow>
                        (case insert_sensor (device_id_col device) n n [] b1 of
                           (Inl sensorError, b2) \<Rightarrow> (Inr insertedReadings, b2)
                         | (Inr newSensor, b2) \<Rightarrow>
                             (case insert_reading (sensor_id_col newSensor) v b2 of
                                (Inl readingError, b3) \<Rightarrow> (Inr insertedReadings, b3)
                              | (Inr readingData, b3) \<Rightarrow> (Inr (insertedReadings @ [readingData]), b3))))
            | _ \<Rightarrow> (Inr insertedReadings, b)))"

fun ingest_loop :: "Device \<Rightarrow> SensorReading js list \<Rightarrow> Reading list \<Rightarrow> backend \<Rightarrow> (thrown + Reading list) \<times> backend" where
  "ingest_loop device [] insertedReadings b = (Inr insertedReadings, b)"
| "ingest_loop device (reading # rest) insertedReadings b =
     (case ingest_entry device reading insertedReadings b of
        (Inl ex, b1) \<Rightarrow> (Inl ex, b1)
      | (Inr inserted1, b1) \<Rightarrow> ingest_loop device rest inserted1 b1)"

text \<open>
  The body of the \<^verbatim>\<open>try\<close> block. The two environment variables \<^verbatim>\<open>createClient\<close> reads are
  taken to be set, as the hosting platform sets them, so creating the client does not throw.
\<close>

definition handler_try :: "Request \<Rightarrow> backend \<Rightarrow> (thrown + Response) \<times> backend" where
  "handler_try req b =
     (if req_method req \<noteq> ''POST''
      then (Inr \<lparr>status = 405, payload = Error_body ''Method not allowed''\<rparr>, b)
      else case json req of
        None \<Rightarrow> (Inl Json_rejected, b)
      | Some p \<Rightarrow>
          if falsy (device_key p) \<or> nullish (readings p)
          then (Inr \<lparr>status = 400,
                     payload = Error_body ''Invalid payload. Expected device_key and readings array.''\<rparr>, b)
          else (case (device_key p, readings p) of
              (Val k, Val rs) \<Rightarrow>
                (case select_device k b of
                   (Inl deviceError, b1) \<Rightarrow>
                     (Inr \<lparr>status = 401, payload = Error_body ''Invalid device key''\<rparr>, b1)
                 | (Inr None, b1) \<Rightarrow>
                     (Inr \<lparr>status = 401, payload = Error_body ''Invalid device key''\<rparr>, b1)
                 | (Inr (Some device), b1) \<Rightarrow>
                     (case ingest_loop device rs [] b1 of
                        (Inl ex, b2) \<Rightarrow> (Inl ex, b2)
                      | (Inr insertedReadings, b2) \<Rightarrow>
                          (Inr \<lparr>status = 200,
                                payload = Success (device_id_col device) (length insertedReadings)\<rparr>, b2)))
            | _ \<Rightarrow> (Inr \<lparr>status = 400,
                     payload = Error_body ''Invalid payload. Expected device_key and readings array.''\<rparr>, b)))"

text \<open>The handler: the preflight answer, the \<^verbatim>\<open>try\<close> block, and the \<^verbatim>\<open>catch\<close>.\<close>

definition handler :: "Request \<Rightarrow> backend \<Rightarrow> Response \<times> backend" where
  "handler req b =
     (if req_method req = ''OPTIONS'' then (\<lparr>status = 200, payload = No_body\<rparr>, b)
      else case handler_try req b of
        (Inl ex, b1) \<Rightarrow> (\<lparr>status = 500, payload = Server_error\<rparr>, b1)
      | (Inr resp, b1) \<Rightarrow> (resp, b1))"

subsection \<open>The traffic simulator\<close>

record SimulatorState =
  deviceId :: string
  sensorId :: string
  sensorName :: string
  sensorType :: string
  sensorUnit :: string
  isRunning :: bool
  intervalId :: "nat option"  \<comment> \<open>\<^verbatim>\<open>number | null\<close>\<close>
  currentValue :: real

text \<open>
  What leaves the browser. \<^verbatim>\<open>sendReading\<close> calls the store client's
  \<^verbatim>\<open>from(table).insert(row)\<close>; a POST to the ingestion function is the other route a
  reading can take to the store.
\<close>

datatype outbound =
    Table_insert string string real  \<comment> \<open>table, \<^verbatim>\<open>sensor_id\<close>, \<^verbatim>\<open>value\<close>\<close>
  | Ingest_post IngestPayload

text \<open>An armed interval timer: its handle and the variables its callback closes over.\<close>

record timer =
  handle :: nat
  timer_sensor :: string
  timer_type :: string

text \<open>
  \<open>simulators\<close> is the React state (a JavaScript \<^verbatim>\<open>Map\<close>, which keeps insertion order),
  \<open>armed\<close> the timers set by \<^verbatim>\<open>window.setInterval\<close> and not yet cleared, and
  \<open>is_mounted\<close> tells whether the provider is still mounted.
\<close>

record browser =
  simulators :: "(string \<times> SimulatorState) list"
  armed :: "timer list"
  next_handle :: nat
  outbox :: "outbound list"
  is_mounted :: bool

text \<open>\<^verbatim>\<open>String.prototype.toLowerCase\<close> on ASCII letters.\<close>

definition lower_char :: "char \<Rightarrow> char" where
  "lower_char c =
     (case map_of (zip ''ABCDEFGHIJKLMNOPQRSTUVWXYZ'' ''abcdefghijklmnopqrstuvwxyz'') c of
        Some l \<Rightarrow> l
      | None \<Rightarrow> c)"

definition toLowerCase :: "string \<Rightarrow> string" where
  "toLowerCase s = map lower_char s"

text \<open>
  The baseline of a sensor type, from the draw \<open>r\<close> of \<^verbatim>\<open>Math.random()\<close>: the
  \<^verbatim>\<open>switch\<close> of \<^verbatim>\<open>generateValue\<close>.
\<close>

definition baseline :: "string \<Rightarrow> real \<Rightarrow> real" where
  "baseline ty r =
     (let t = toLowerCase ty in
      if t = ''temperature'' then 20 + r * 10
      else if t = ''humidity'' then 40 + r * 40
      else if t = ''pressure'' then 1000 + r * 50
      else if t = ''light'' then r * 1000
      else if t = ''co2'' then 400 + r * 600
      else if t = ''voltage'' then 3.0 + r * 2.0
      else r * 100)"

text \<open>
  \<open>rb\<close> is the draw of the baseline (taken only when there is no previous value), \<open>rv\<close>
  the draw of the variation.
\<close>

definition generateValue :: "string \<Rightarrow> real option \<Rightarrow> real \<Rightarrow> real \<Rightarrow> real" where
  "generateValue ty previousValue rb rv =
     (let baseValue = (case previousValue of Some p \<Rightarrow> p | None \<Rightarrow> baseline ty rb);
          variation = (rv - 0.5) * 2
      in max 0 (baseValue + variation))"

text \<open>
  \<^verbatim>\<open>sendReading\<close> issues the insert; its outcome is only logged and an exception is caught,
  so nothing comes back to the caller.
\<close>

definition sendReading :: "string \<Rightarrow> real \<Rightarrow> browser \<Rightarrow> browser" where
  "sendReading sid v w = w\<lparr>outbox := outbox w @ [Table_insert ''readings'' sid v]\<rparr>"

definition setInterval :: "string \<Rightarrow> string \<Rightarrow> browser \<Rightarrow> nat \<times> browser" where
  "setInterval sid ty w =
     (next_handle w,
      w\<lparr>armed := armed w @ [\<lparr>handle = next_handle w, timer_sensor = sid, timer_type = ty\<rparr>],
        next_handle := Suc (next_handle w)\<rparr>)"

definition clearInterval :: "nat \<Rightarrow> browser \<Rightarrow> browser" where
  "clearInterval h w = w\<lparr>armed := filter (\<lambda>t. handle t \<noteq> h) (armed w)\<rparr>"

text \<open>\<^verbatim>\<open>if (sim.intervalId) clearInterval(sim.intervalId)\<close>: null and 0 are falsy.\<close>

definition clear_if_set :: "nat option \<Rightarrow> browser \<Rightarrow> browser" where
  "clear_if_set i w = (case i of None \<Rightarrow> w | Some h \<Rightarrow> if h = 0 then w else clearInterval h w)"

text \<open>\<^verbatim>\<open>simulators.get(sensorId)?.isRunning\<close>, as a condition.\<close>

definition running_in :: "(string \<times> SimulatorState) list \<Rightarrow> string \<Rightarrow> bool" where
  "running_in snap sid = (case map_of snap sid of None \<Rightarrow> False | Some sim \<Rightarrow> isRunning sim)"

text \<open>
  The interval callback \<^verbatim>\<open>setSimulators(prev => ...)\<close>, its updater applied to the state
  \<open>simulators w\<close>.
\<close>

definition tick :: "string \<Rightarrow> string \<Rightarrow> real \<Rightarrow> browser \<Rightarrow> browser" where
  "tick sid ty rv w =
     (case map_of (simulators w) sid of
        None \<Rightarrow> w
      | Some current \<Rightarrow>
          (let newValue = generateValue ty (Some (currentValue current)) 0 rv;
               w1 = sendReading sid newValue w
           in w1\<lparr>simulators := AList.update sid (current\<lparr>currentValue := newValue\<rparr>) (simulators w1)\<rparr>))"

text \<open>
  The timer with handle \<open>h\<close> comes due. If it is still armed its callback runs and hands the
  updater to \<^verbatim>\<open>setSimulators\<close>. React applies the updater of a mounted provider; once the
  provider is unmounted the model applies none, so nothing is stated about readings sent
  after the unmount.
\<close>

definition fire :: "nat \<Rightarrow> real \<Rightarrow> browser \<Rightarrow> browser" where
  "fire h rv w =
     (case find (\<lambda>t. handle t = h) (armed w) of
        None \<Rightarrow> w
      | Some t \<Rightarrow> if is_mounted w then tick (timer_sensor t) (timer_type t) rv w else w)"

text \<open>
  \<^verbatim>\<open>startSimulator\<close>, \<^verbatim>\<open>stopSimulator\<close> and the cleanup read the variable \<^verbatim>\<open>simulators\<close> of
  the render that created them: the argument \<open>snap\<close>. Their state updates go through
  \<^verbatim>\<open>setSimulators(prev => ...)\<close> and act on the state itself.
\<close>

definition startSimulator ::
  "(string \<times> SimulatorState) list \<Rightarrow> string \<Rightarrow> string \<Rightarrow> string \<Rightarrow> string \<Rightarrow> string \<Rightarrow> real \<Rightarrow> real \<Rightarrow> browser \<Rightarrow> browser" where
  "startSimulator snap did sid nm ty un rb rv w =
     (if running_in snap sid then w
      else let initialValue = generateValue ty None rb rv;
               w1 = sendReading sid initialValue w;
               (h, w2) = setInterval sid ty w1
           in w2\<lparr>simulators := AList.update sid
                  \<lparr>deviceId = did, sensorId = sid, sensorName = nm, sensorType = ty, sensorUnit = un,
                   isRunning = True, intervalId = Some h, currentValue = initialValue\<rparr>
                  (simulators w2)\<rparr>)"

definition stopSimulator :: "(string \<times> SimulatorState) list \<Rightarrow> string \<Rightarrow> browser \<Rightarrow> browser" where
  "stopSimulator snap sid w =
     (let w1 = (case map_of snap sid of None \<Rightarrow> w | Some sim \<Rightarrow> clear_if_set (intervalId sim) w)
      in w1\<lparr>simulators := AList.delete sid (simulators w1)\<rparr>)"

text \<open>The function the effect returns: \<^verbatim>\<open>simulators.forEach(sim => ...)\<close>.\<close>

definition cleanup :: "(string \<times> SimulatorState) list \<Rightarrow> browser \<Rightarrow> browser" where
  "cleanup snap w = fold (\<lambda>(k, sim). clear_if_set (intervalId sim)) snap w"

text \<open>The provider after its first render: \<^verbatim>\<open>useState(new Map())\<close>, no timer set.\<close>

definition mounted :: browser where
  "mounted = \<lparr>simulators = [], armed = [], next_handle = 1, outbox = [],
               is_mounted = True\<rparr>"

text \<open>
  The provider unmounts. The effect has the dependency array \<^verbatim>\<open>[]\<close>: it runs once, after the
  first render, and the cleanup it returns is the one React calls at the unmount. That
  closure reads the \<^verbatim>\<open>simulators\<close> of the first render, the map \<open>simulators mounted\<close>, which
  no later update changes (every update copies: \<^verbatim>\<open>new Map(prev)\<close>). The timers are the
  browser's, not the provider's: the unmount itself clears none.
\<close>

definition unmount :: "browser \<Rightarrow> browser" where
  "unmount w = (cleanup (simulators mounted) w)\<lparr>is_mounted := False\<rparr>"

subsection \<open>Observations on simulator runs\<close>

text \<open>Whether an outbound call goes to the ingestion function.\<close>

fun via_ingestion :: "outbound \<Rightarrow> bool" where
  "via_ingestion (Ingest_post p) = True"
| "via_ingestion (Table_insert t s v) = False"

text \<open>Successive ticks of one sensor's timer, one draw each, nothing else in between.\<close>

fun ticks :: "string \<Rightarrow> string \<Rightarrow> real list \<Rightarrow> browser \<Rightarrow> browser" where
  "ticks sid ty [] w = w"
| "ticks sid ty (r # rs) w = ticks sid ty rs (tick sid ty r w)"

text \<open>The values of the rows handed to \<^verbatim>\<open>insert\<close>, in order.\<close>

fun sent_values :: "outbound list \<Rightarrow> real list" where
  "sent_values [] = []"
| "sent_values (Table_insert t s v # xs) = v # sent_values xs"
| "sent_values (Ingest_post p # xs) = sent_values xs"

text \<open>Each element is within one unit of the element before it.\<close>

fun unit_steps :: "real list \<Rightarrow> bool" where
  "unit_steps (x # y # zs) = (\<bar>y - x\<bar> \<le> 1 \<and> unit_steps (y # zs))"
| "unit_steps _ = True"

text \<open>The values \<^verbatim>\<open>generateValue\<close> yields when each call is fed the value before it.\<close>

fun walk :: "string \<Rightarrow> real \<Rightarrow> real list \<Rightarrow> real list" where
  "walk ty p [] = []"
| "walk ty p (r # rs) = (let v = generateValue ty (Some p) 0 r in v # walk ty v rs)"

text \<open>Two runs from the freshly mounted provider, started by the function of that render.\<close>

definition humidity_run :: browser where
  "humidity_run =
     startSimulator (simulators mounted) ''d1'' ''s1'' ''Humidity'' ''humidity'' ''%'' (1/2) (1/4) mounted"

definition light_run :: browser where
  "light_run =
     startSimulator (simulators mounted) ''d1'' ''s2'' ''Lux'' ''Light'' ''lx'' 0 0 mounted"

text \<open>
  The sensor of \<open>humidity_run\<close> started once more through the function of the first render,
  whose \<^verbatim>\<open>simulators\<close> is still the empty map.
\<close>

definition stale_restart :: browser where
  "stale_restart =
     startSimulator (simulators mounted) ''d1'' ''s1'' ''Humidity'' ''humidity'' ''%'' (1/3) (2/3)
       humidity_run"

subsection \<open>Observations on ingestion requests\<close>

text \<open>The entries the loop does not skip.\<close>

definition accepted :: "SensorReading js \<Rightarrow> bool" where
  "accepted e = (case e of Val r \<Rightarrow> \<not> falsy (sensor_name r) \<and> \<not> nullish (reading_value r) | _ \<Rightarrow> False)"

text \<open>The entries whose \<^verbatim>\<open>sensor_name\<close> and \<^verbatim>\<open>value\<close> are both present, in the words of the
  specification: neither missing nor null.\<close>

definition both_present :: "SensorReading js \<Rightarrow> bool" where
  "both_present e = (case e of Val r \<Rightarrow> \<not> nullish (sensor_name r) \<and> \<not> nullish (reading_value r) | _ \<Rightarrow> False)"

text \<open>
  An entry with a missing or null \<^verbatim>\<open>sensor_name\<close> or \<^verbatim>\<open>value\<close>, in the words of the
  specification; an element that is itself null has neither property.
\<close>

definition lacks_name_or_value :: "SensorReading js \<Rightarrow> bool" where
  "lacks_name_or_value e =
     (case e of Val r \<Rightarrow> nullish (sensor_name r) \<or> nullish (reading_value r) | _ \<Rightarrow> True)"

definition quiet :: "backend \<Rightarrow> bool" where
  "quiet b = list_all (\<lambda>e. e = Quiet) (pending b)"

definition unique_sensors :: "backend \<Rightarrow> bool" where
  "unique_sensors b = distinct (map (\<lambda>s. (device_id s, name s)) (sensors b))"

definition has_device :: "uuid \<Rightarrow> backend \<Rightarrow> bool" where
  "has_device d b = list_ex (\<lambda>dev. device_id_col dev = d) (devices b)"

text \<open>A store with the device \<open>1\<close> of key \<^verbatim>\<open>abc123\<close> and one sensor, and requests to it.\<close>

definition board :: backend where
  "board = \<lparr>devices = [\<lparr>device_id_col = 1, user_id = 7, api_key = ''abc123''\<rparr>],
            sensors = [\<lparr>sensor_id_col = 2, device_id = 1, name = ''hum'', type = ''humidity'', unit = ''%''\<rparr>],
            readings_tbl = [], fresh = 3, pending = [], issued = []\<rparr>"

definition post :: "string \<Rightarrow> SensorReading js list \<Rightarrow> Request" where
  "post k rs = \<lparr>req_method = ''POST'', json = Some \<lparr>device_key = Val k, readings = Val rs\<rparr>\<rparr>"

definition entry :: "string \<Rightarrow> real \<Rightarrow> SensorReading js" where
  "entry n v = Val \<lparr>sensor_name = Val n, reading_value = Val v\<rparr>"

text \<open>The same store when a concurrent request creates the sensor \<^verbatim>\<open>temp\<close> of device \<open>1\<close>
  between this request's lookup of that sensor and its insert.\<close>

definition raced :: backend where
  "raced = board\<lparr>pending := [Quiet, Quiet, Concurrent_sensor 1 ''temp'']\<rparr>"

text \<open>The store as one request sees it when nothing else happens: no fault, no concurrent
  writer, the uniqueness constraint of \<^verbatim>\<open>sensors\<close> in force, the device row present.\<close>

definition calm :: "uuid \<Rightarrow> backend \<Rightarrow> bool" where
  "calm d b = (quiet b \<and> unique_sensors b \<and> has_device d b)"

section \<open>Properties of the ingestion endpoint\<close>

lemmas ingest_defs = handler_def handler_try_def ingest_entry_def select_device_def
  select_sensor_def insert_sensor_def insert_reading_def begin_call_def add_sensor_def
  sensor_rows_def falsy_def nullish_def Let_def

lemmas sample_defs = board_def post_def entry_def accepted_def both_present_def quiet_def
  unique_sensors_def lacks_name_or_value_def

lemma begin_call_quiet:
  assumes "quiet b"
  shows "begin_call c b = (Quiet, b\<lparr>pending := tl (pending b), issued := issued b @ [c]\<rparr>)"
  using assms by (cases "pending b") (simp_all add: begin_call_def quiet_def Let_def)

lemma quiet_tl: "quiet b \<Longrightarrow> list_all (\<lambda>e. e = Quiet) (tl (pending b))"
  by (cases "pending b") (simp_all add: quiet_def)

lemma unique_rows:
  "distinct (map f xs) \<Longrightarrow> filter (\<lambda>x. f x = k) xs = [] \<or> (\<exists>x. filter (\<lambda>x. f x = k) xs = [x])"
proof (induction xs)
  case Nil
  then show ?case by simp
next
  case (Cons a xs)
  show ?case
  proof (cases "f a = k")
    case True
    from Cons.prems have "f a \<notin> f ` set xs" by simp
    with True have "\<forall>x\<in>set xs. f x \<noteq> k" by blast
    then have "filter (\<lambda>x. f x = k) xs = []" by (simp add: filter_empty_conv)
    with True show ?thesis by simp
  next
    case False
    with Cons show ?thesis by simp
  qed
qed

lemma sensor_rows_unique:
  assumes "unique_sensors b"
  shows "sensor_rows d n b = [] \<or> (\<exists>s. sensor_rows d n b = [s])"
proof -
  have "sensor_rows d n b = filter (\<lambda>s. (device_id s, name s) = (d, n)) (sensors b)"
    by (simp add: sensor_rows_def)
  with unique_rows [of "\<lambda>s. (device_id s, name s)" "sensors b" "(d, n)"] assms
  show ?thesis by (simp add: unique_sensors_def)
qed

lemma sensor_rows_member: "sensor_rows d n b = [s] \<Longrightarrow> s \<in> set (sensors b)"
proof -
  assume "sensor_rows d n b = [s]"
  then have "s \<in> set (filter (\<lambda>s. device_id s = d \<and> name s = n) (sensors b))"
    by (simp add: sensor_rows_def)
  then show ?thesis by simp
qed

lemma insert_reading_calm:
  assumes "calm d b" "s \<in> set (sensors b)"
  shows "\<exists>row b'. insert_reading (sensor_id_col s) v b = (Inr row, b') \<and> calm d b'"
proof -
  have q: "quiet b" using assms(1) by (simp add: calm_def)
  have ex: "list_ex (\<lambda>row. sensor_id_col row = sensor_id_col s) (sensors b)"
    using assms(2) by (auto simp: list_ex_iff)
  show ?thesis
    using assms(1) ex quiet_tl [OF q]
    by (simp add: insert_reading_def begin_call_quiet [OF q] Let_def calm_def quiet_def unique_sensors_def has_device_def)
qed

lemma insert_sensor_calm:
  assumes "calm d b" "sensor_rows d n b = []"
  shows "\<exists>s b'. insert_sensor d n t u b = (Inr s, b') \<and> calm d b' \<and> s \<in> set (sensors b')"
proof -
  have q: "quiet b" using assms(1) by (simp add: calm_def)
  have fresh_key: "(d, n) \<notin> (\<lambda>s. (device_id s, name s)) ` set (sensors b)"
    using assms(2) by (auto simp: sensor_rows_def filter_empty_conv)
  show ?thesis
    using assms fresh_key quiet_tl [OF q]
    by (simp add: insert_sensor_def add_sensor_def begin_call_quiet [OF q] Let_def calm_def
        quiet_def unique_sensors_def has_device_def sensor_rows_def)
qed

lemma select_sensor_calm:
  assumes "calm d b"
  shows "\<exists>b'. select_sensor d n b = (maybeSingle (sensor_rows d n b), b') \<and> calm d b'
          \<and> sensors b' = sensors b"
proof -
  have q: "quiet b" using assms(1) by (simp add: calm_def)
  show ?thesis
    using assms quiet_tl [OF q]
    by (simp add: select_sensor_def begin_call_quiet [OF q] Let_def calm_def
        quiet_def unique_sensors_def has_device_def sensor_rows_def)
qed

lemma ingest_entry_calm:
  assumes "calm (device_id_col device) b" "accepted e"
  shows "\<exists>row b'. ingest_entry device e ins b = (Inr (ins @ [row]), b') \<and> calm (device_id_col device) b'"
proof -
  let ?d = "device_id_col device"
  from assms(2) obtain r n v where e: "e = Val r" "sensor_name r = Val n" "reading_value r = Val v" "n \<noteq> []"
    by (auto simp: accepted_def falsy_def nullish_def split: js.splits)
  obtain b1 where sel: "select_sensor ?d n b = (maybeSingle (sensor_rows ?d n b), b1)"
    and c1: "calm ?d b1" and s1: "sensors b1 = sensors b"
    using select_sensor_calm [OF assms(1)] by blast
  have rows1: "sensor_rows ?d n b1 = sensor_rows ?d n b"
    using s1 by (simp add: sensor_rows_def)
  from sensor_rows_unique [of b ?d n] assms(1)
  consider "sensor_rows ?d n b = []" | s where "sensor_rows ?d n b = [s]"
    by (auto simp: calm_def)
  then show ?thesis
  proof cases
    case 1
    then obtain s b2 where ins_s: "insert_sensor ?d n n [] b1 = (Inr s, b2)"
      and c2: "calm ?d b2" and mem: "s \<in> set (sensors b2)"
      using insert_sensor_calm [OF c1, of n n "[]"] rows1 by auto
    obtain row b3 where "insert_reading (sensor_id_col s) v b2 = (Inr row, b3)" "calm ?d b3"
      using insert_reading_calm [OF c2 mem] by blast
    then show ?thesis
      using e sel 1 ins_s
      by (simp add: ingest_entry_def falsy_def nullish_def)
  next
    case 2
    then have "s \<in> set (sensors b1)"
      using sensor_rows_member [of ?d n b s] s1 by simp
    then obtain row b2 where "insert_reading (sensor_id_col s) v b1 = (Inr row, b2)" "calm ?d b2"
      using insert_reading_calm [OF c1] by blast
    then show ?thesis
      using e sel 2
      by (simp add: ingest_entry_def falsy_def nullish_def)
  qed
qed

lemma ingest_entry_skip:
  assumes "\<not> accepted (Val r)"
  shows "ingest_entry device (Val r) ins b = (Inr ins, b)"
  using assms by (simp add: ingest_entry_def accepted_def)

lemma ingest_loop_calm:
  assumes "calm (device_id_col device) b" "list_all (\<lambda>e. \<not> nullish e) rs"
  shows "\<exists>ins' b'. ingest_loop device rs ins b = (Inr ins', b')
           \<and> length ins' = length ins + length (filter accepted rs)"
  using assms
proof (induction rs arbitrary: ins b)
  case Nil
  then show ?case by simp
next
  case (Cons e rs)
  from Cons.prems(2) obtain r where e: "e = Val r"
    by (cases e) (simp_all add: nullish_def)
  show ?case
  proof (cases "accepted e")
    case True
    then obtain row b1 where step: "ingest_entry device e ins b = (Inr (ins @ [row]), b1)"
      and c1: "calm (device_id_col device) b1"
      using ingest_entry_calm [OF Cons.prems(1)] by blast
    from Cons.IH [OF c1, of "ins @ [row]"] Cons.prems(2) True step
    show ?thesis by auto
  next
    case False
    with e have step: "ingest_entry device e ins b = (Inr ins, b)"
      by (simp add: ingest_entry_skip)
    from Cons.IH [OF Cons.prems(1), of ins] Cons.prems(2) False step
    show ?thesis by auto
  qed
qed

text \<open>
  \<^bold>\<open>C1\<close>, as the specification states it: for a request whose key matches exactly one
  device, \<open>readings_inserted\<close> is the number of entries whose \<^verbatim>\<open>sensor_name\<close> and \<^verbatim>\<open>value\<close> are
  both present. This fails in two ways. An entry with the empty string as name has both
  properties present and is skipped by \<^verbatim>\<open>!sensor_name\<close>; and an entry whose reading insert
  fails is not counted.
\<close>

theorem present_entries_not_all_counted:
  "filter (\<lambda>d. api_key d = ''abc123'') (devices board) =
      [\<lparr>device_id_col = 1, user_id = 7, api_key = ''abc123''\<rparr>]
   \<and> length (filter both_present [entry '''' 1]) = 1
   \<and> fst (handler (post ''abc123'' [entry '''' 1]) board) = \<lparr>status = 200, payload = Success 1 0\<rparr>
   \<and> length (filter both_present [entry ''hum'' 55]) = 1
   \<and> fst (handler (post ''abc123'' [entry ''hum'' 55]) (board\<lparr>pending := [Quiet, Quiet, Fault]\<rparr>)) =
        \<lparr>status = 200, payload = Success 1 0\<rparr>"
  by (simp add: ingest_defs sample_defs)

text \<open>
  \<^bold>\<open>C1\<close>, amended: when the device key matches exactly one device, no store call of the request
  fails or is overtaken by a concurrent writer, and no element of the array is itself null,
  the response is 200 and \<open>readings_inserted\<close> is the number of entries whose
  \<^verbatim>\<open>sensor_name\<close> is a non-empty string and whose \<^verbatim>\<open>value\<close> is neither missing nor null,
  whether or not their sensor had to be created.
\<close>

theorem readings_inserted_counts_accepted:
  assumes "req_method req = ''POST''" and "json req = Some p"
    and "device_key p = Val k" and "readings p = Val rs"
    and "filter (\<lambda>d. api_key d = k) (devices b) = [device]" and "k \<noteq> []"
    and "quiet b" and "unique_sensors b"
    and "list_all (\<lambda>e. \<not> nullish e) rs"
  shows "fst (handler req b) =
           \<lparr>status = 200, payload = Success (device_id_col device) (length (filter accepted rs))\<rparr>"
proof -
  let ?b1 = "b\<lparr>pending := tl (pending b), issued := issued b @ [Select_device k]\<rparr>"
  have sel: "select_device k b = (Inr (Some device), ?b1)"
    using assms(5) by (simp add: select_device_def begin_call_quiet [OF assms(7)])
  have "device \<in> set (filter (\<lambda>d. api_key d = k) (devices b))"
    using assms(5) by simp
  then have "has_device (device_id_col device) ?b1"
    by (auto simp: has_device_def list_ex_iff)
  then have "calm (device_id_col device) ?b1"
    using quiet_tl [OF assms(7)] assms(8) by (simp add: calm_def quiet_def unique_sensors_def)
  from ingest_loop_calm [OF this assms(9), of "[]"]
  obtain ins' b' where "ingest_loop device rs [] ?b1 = (Inr ins', b')"
    and "length ins' = length (filter accepted rs)"
    by auto
  then show ?thesis
    using assms(1-4,6) sel
    by (simp add: handler_def handler_try_def falsy_def nullish_def)
qed

theorem readings_inserted_counts_accepted_witness:
  "quiet board \<and> unique_sensors board
   \<and> filter (\<lambda>d. api_key d = ''abc123'') (devices board) =
        [\<lparr>device_id_col = 1, user_id = 7, api_key = ''abc123''\<rparr>]
   \<and> fst (handler (post ''abc123''
         [entry ''temp'' (43/2), entry ''temp'' 22, entry ''hum'' 55, entry '''' 1,
          Val \<lparr>sensor_name = Null, reading_value = Val 3\<rparr>,
          Val \<lparr>sensor_name = Val ''co2'', reading_value = Undefined\<rparr>]) board) =
        \<lparr>status = 200, payload = Success 1 3\<rparr>"
proof -
  let ?rs = "[entry ''temp'' (43/2), entry ''temp'' 22, entry ''hum'' 55, entry '''' 1,
          Val \<lparr>sensor_name = Null, reading_value = Val 3\<rparr>,
          Val \<lparr>sensor_name = Val ''co2'', reading_value = Undefined\<rparr>]"
  have h: "quiet board" "unique_sensors board"
    "filter (\<lambda>d. api_key d = ''abc123'') (devices board) =
        [\<lparr>device_id_col = 1, user_id = 7, api_key = ''abc123''\<rparr>]"
    "list_all (\<lambda>e. \<not> nullish e) ?rs"
    by (simp_all add: sample_defs nullish_def)
  have n: "length (filter accepted ?rs) = 3"
    by (simp add: sample_defs falsy_def nullish_def)
  from readings_inserted_counts_accepted [where req = "post ''abc123'' ?rs" and b = board
      and k = "''abc123''" and rs = ?rs
      and p = "\<lparr>device_key = Val ''abc123'', readings = Val ?rs\<rparr>"
      and device = "\<lparr>device_id_col = 1, user_id = 7, api_key = ''abc123''\<rparr>"]
  show ?thesis using h n by (simp add: post_def)
qed






lemma begin_call_issued: "issued (snd (begin_call c b)) = issued b @ [c]"
  by (cases "next_event (pending b)") (simp_all add: begin_call_def Let_def add_sensor_def)

lemma select_sensor_issued: "issued (snd (select_sensor d n b)) = issued b @ [Select_sensor d n]"
proof (cases "begin_call (Select_sensor d n) b")
  case (Pair e b1)
  with begin_call_issued [of "Select_sensor d n" b] show ?thesis
    by (simp add: select_sensor_def)
qed

lemma insert_sensor_issued:
  "issued (snd (insert_sensor d n t u b)) = issued b @ [Insert_sensor d n t u]"
proof (cases "begin_call (Insert_sensor d n t u) b")
  case (Pair e b1)
  with begin_call_issued [of "Insert_sensor d n t u" b] show ?thesis
    by (simp add: insert_sensor_def add_sensor_def Let_def)
qed

text \<open>
  \<^bold>\<open>C2\<close>, as the specification states it: when the sensor insert fails on the uniqueness
  constraint because a concurrent first sighting created the row, the endpoint takes the row
  as existing and looks it up again. This fails: in the raced store the insert is refused
  with a uniqueness violation, the request makes no further call for the entry (no second
  lookup, no reading insert), and answers \<open>readings_inserted = 0\<close> although the sensor row
  is in the table.
\<close>

theorem unique_violation_not_retried:
  "fst (insert_sensor 1 ''temp'' ''temp'' []
          (snd (select_sensor 1 ''temp'' (snd (select_device ''abc123'' raced))))) = Inl Unique_violation
   \<and> fst (handler (post ''abc123'' [entry ''temp'' (43/2)]) raced) = \<lparr>status = 200, payload = Success 1 0\<rparr>
   \<and> issued (snd (handler (post ''abc123'' [entry ''temp'' (43/2)]) raced)) =
       [Select_device ''abc123'', Select_sensor 1 ''temp'', Insert_sensor 1 ''temp'' ''temp'' []]
   \<and> sensor_rows 1 ''temp'' (snd (handler (post ''abc123'' [entry ''temp'' (43/2)]) raced)) =
       [\<lparr>sensor_id_col = 3, device_id = 1, name = ''temp'', type = ''temp'', unit = []\<rparr>]
   \<and> readings_tbl (snd (handler (post ''abc123'' [entry ''temp'' (43/2)]) raced)) = []"
  by (simp add: raced_def ingest_defs sample_defs)

text \<open>
  \<^bold>\<open>C2\<close>, amended: when the lookup of an entry's sensor yields no row and the sensor insert
  that follows fails, with a uniqueness violation or any other error, the entry is skipped:
  the lookup and the insert are the only calls made for it, no reading is inserted, the
  array of inserted rows is unchanged, and the loop goes on with the next entry.
\<close>

theorem failed_sensor_insert_skips_entry:
  assumes "sensor_name r = Val n" and "n \<noteq> []" and "reading_value r = Val v"
    and "data_of (fst (select_sensor (device_id_col device) n b)) = None"
    and "fst (insert_sensor (device_id_col device) n n []
                (snd (select_sensor (device_id_col device) n b))) = Inl err"
  shows "let b2 = snd (insert_sensor (device_id_col device) n n []
                        (snd (select_sensor (device_id_col device) n b)))
         in ingest_entry device (Val r) ins b = (Inr ins, b2)
          \<and> ingest_loop device (Val r # rest) ins b = ingest_loop device rest ins b2
          \<and> issued b2 = issued b @ [Select_sensor (device_id_col device) n,
                                    Insert_sensor (device_id_col device) n n []]"
proof -
  let ?d = "device_id_col device"
  obtain found b1 where sel: "select_sensor ?d n b = (found, b1)"
    by (cases "select_sensor ?d n b")
  obtain res b2 where ins_s: "insert_sensor ?d n n [] b1 = (res, b2)"
    by (cases "insert_sensor ?d n n [] b1")
  have step: "ingest_entry device (Val r) ins b = (Inr ins, b2)"
    using assms sel ins_s by (simp add: ingest_entry_def falsy_def nullish_def)
  have log: "issued b2 = issued b @ [Select_sensor ?d n, Insert_sensor ?d n n []]"
    using select_sensor_issued [of ?d n b] insert_sensor_issued [of ?d n n "[]" b1] sel ins_s
    by simp
  show ?thesis
    using step log sel ins_s by (simp add: Let_def)
qed

theorem failed_sensor_insert_skips_entry_witness:
  "data_of (fst (select_sensor 1 ''temp'' (snd (select_device ''abc123'' raced)))) = None
   \<and> fst (insert_sensor 1 ''temp'' ''temp'' []
          (snd (select_sensor 1 ''temp'' (snd (select_device ''abc123'' raced))))) = Inl Unique_violation
   \<and> fst (ingest_loop \<lparr>device_id_col = 1, user_id = 7, api_key = ''abc123''\<rparr>
            [entry ''temp'' (43/2), entry ''hum'' 55] [] (snd (select_device ''abc123'' raced))) =
       Inr [\<lparr>reading_id = 0, sensor_id = 2, reading_val = 55\<rparr>]"
proof -
  let ?b = "snd (select_device ''abc123'' raced)"
  let ?dev = "\<lparr>device_id_col = 1, user_id = 7, api_key = ''abc123''\<rparr>"
  have h1: "data_of (fst (select_sensor (device_id_col ?dev) ''temp'' ?b)) = None"
    by (simp add: raced_def ingest_defs sample_defs)
  have h2: "fst (insert_sensor (device_id_col ?dev) ''temp'' ''temp'' []
          (snd (select_sensor (device_id_col ?dev) ''temp'' ?b))) = Inl Unique_violation"
    by (simp add: raced_def ingest_defs sample_defs)
  have v: "fst (ingest_loop ?dev [entry ''hum'' 55] []
            (snd (insert_sensor 1 ''temp'' ''temp'' [] (snd (select_sensor 1 ''temp'' ?b))))) =
       Inr [\<lparr>reading_id = 0, sensor_id = 2, reading_val = 55\<rparr>]"
    by (simp add: raced_def ingest_defs sample_defs)
  from failed_sensor_insert_skips_entry [where r = "\<lparr>sensor_name = Val ''temp'', reading_value = Val (43/2)\<rparr>"
      and n = "''temp''" and v = "43/2" and device = ?dev and b = ?b and err = Unique_violation
      and ins = "[]" and rest = "[entry ''hum'' 55]", OF _ _ _ h1 h2]
  show ?thesis using h1 h2 v by (simp add: Let_def entry_def)
qed

lemma begin_call_readings: "readings_tbl (snd (begin_call c b)) = readings_tbl b"
  by (cases "next_event (pending b)") (simp_all add: begin_call_def Let_def add_sensor_def)

lemma begin_call_sensors:
  assumes "\<forall>d n. next_event (pending b) \<noteq> Concurrent_sensor d n"
  shows "sensors (snd (begin_call c b)) = sensors b"
  using assms by (cases "next_event (pending b)") (simp_all add: begin_call_def Let_def)

lemma begin_call_devices: "devices (snd (begin_call c b)) = devices b"
  by (cases "next_event (pending b)") (simp_all add: begin_call_def Let_def add_sensor_def)

lemma select_device_snd: "snd (select_device k b) = snd (begin_call (Select_device k) b)"
  by (cases "begin_call (Select_device k) b") (simp add: select_device_def)

lemma select_device_no_match:
  assumes "filter (\<lambda>d. api_key d = k) (devices b) = []"
  shows "fst (select_device k b) = Inl Store_unavailable \<or> fst (select_device k b) = Inr None"
proof (cases "begin_call (Select_device k) b")
  case (Pair e b1)
  then have "devices b1 = devices b"
    using begin_call_devices [of "Select_device k" b] by simp
  with Pair assms show ?thesis
    by (simp add: select_device_def)
qed

lemma lookup_without_device:
  assumes "req_method req = ''POST''" and "json req = Some p"
    and "device_key p = Val k" and "k \<noteq> []" and "readings p = Val rs"
    and "fst (select_device k b) = Inl err \<or> fst (select_device k b) = Inr None"
  shows "handler req b =
          (\<lparr>status = 401, payload = Error_body ''Invalid device key''\<rparr>, snd (select_device k b))"
proof (cases "select_device k b")
  case (Pair res b1)
  with assms show ?thesis
    by (auto simp: handler_def handler_try_def falsy_def nullish_def)
qed

text \<open>
  \<^bold>\<open>C5\<close>, as the specification states it: every request whose \<^verbatim>\<open>device_key\<close> matches no device
  is answered 401. This fails for the empty key: no device has it, and the payload check
  \<^verbatim>\<open>!device_key\<close> answers 400 before any lookup is made.
\<close>

theorem empty_device_key_is_400:
  "filter (\<lambda>d. api_key d = '''') (devices board) = []
   \<and> handler (post '''' [entry ''hum'' 55]) board =
       (\<lparr>status = 400,
         payload = Error_body ''Invalid payload. Expected device_key and readings array.''\<rparr>,
        board)"
  by (simp add: ingest_defs sample_defs)

text \<open>
  \<^bold>\<open>C5\<close>, amended: a request that passes the payload check (its \<^verbatim>\<open>device_key\<close> is a non-empty
  string and its \<^verbatim>\<open>readings\<close> an array) and whose key matches no device is answered 401 with
  \<^verbatim>\<open>Invalid device key\<close>. The lookup in \<^verbatim>\<open>devices\<close> is the only call the request makes, so it
  writes nothing: \<^verbatim>\<open>readings\<close> is as before, and so is \<^verbatim>\<open>sensors\<close> unless a concurrent
  request inserted a row while the lookup was under way.
\<close>

theorem unknown_device_key_rejected:
  assumes "req_method req = ''POST''" and "json req = Some p"
    and "device_key p = Val k" and "k \<noteq> []" and "readings p = Val rs"
    and "filter (\<lambda>d. api_key d = k) (devices b) = []"
  shows "fst (handler req b) = \<lparr>status = 401, payload = Error_body ''Invalid device key''\<rparr>
    \<and> issued (snd (handler req b)) = issued b @ [Select_device k]
    \<and> readings_tbl (snd (handler req b)) = readings_tbl b
    \<and> ((\<forall>d n. next_event (pending b) \<noteq> Concurrent_sensor d n) \<longrightarrow>
         sensors (snd (handler req b)) = sensors b)"
proof -
  have "fst (select_device k b) = Inl Store_unavailable \<or> fst (select_device k b) = Inr None"
    using assms(6) by (rule select_device_no_match)
  from lookup_without_device [OF assms(1-5) this]
  show ?thesis
    by (simp add: select_device_snd begin_call_issued begin_call_readings begin_call_sensors)
qed

theorem unknown_device_key_rejected_witness:
  "filter (\<lambda>d. api_key d = ''bad'') (devices board) = []
   \<and> handler (post ''bad'' [entry ''temp'' (43/2), entry ''hum'' 55]) board =
       (\<lparr>status = 401, payload = Error_body ''Invalid device key''\<rparr>,
        board\<lparr>issued := [Select_device ''bad'']\<rparr>)"
proof -
  have h: "filter (\<lambda>d. api_key d = ''bad'') (devices board) = []"
    by (simp add: board_def)
  have v: "snd (handler (post ''bad'' [entry ''temp'' (43/2), entry ''hum'' 55]) board) =
             board\<lparr>issued := [Select_device ''bad'']\<rparr>"
    by (simp add: ingest_defs sample_defs)
  from unknown_device_key_rejected [where req = "post ''bad'' [entry ''temp'' (43/2), entry ''hum'' 55]"
      and p = "\<lparr>device_key = Val ''bad'', readings = Val [entry ''temp'' (43/2), entry ''hum'' 55]\<rparr>"
      and k = "''bad''" and rs = "[entry ''temp'' (43/2), entry ''hum'' 55]" and b = board, OF _ _ _ _ _ h]
  show ?thesis using h v by (simp add: post_def prod_eq_iff)
qed

text \<open>
  \<^bold>\<open>C10\<close>: when the lookup in \<^verbatim>\<open>devices\<close> fails (it returns an error, as it does on a store
  outage) the answer is 401 with \<^verbatim>\<open>Invalid device key\<close>, the same as when it finds no row;
  and the status is 500 exactly when the \<^verbatim>\<open>try\<close> block throws.
\<close>

theorem lookup_failure_is_401:
  "(req_method req = ''POST'' \<and> json req = Some p \<and> device_key p = Val k \<and> k \<noteq> []
      \<and> readings p = Val rs
      \<and> (fst (select_device k b) = Inl err \<or> fst (select_device k b) = Inr None) \<longrightarrow>
      fst (handler req b) = \<lparr>status = 401, payload = Error_body ''Invalid device key''\<rparr>)
   \<and> (next_event (pending b) = Fault \<longrightarrow> fst (select_device k b) = Inl Store_unavailable)
   \<and> (status (fst (handler req b)) = 500 \<longleftrightarrow> (\<exists>ex. fst (handler_try req b) = Inl ex))"
proof (intro conjI impI)
  assume "req_method req = ''POST'' \<and> json req = Some p \<and> device_key p = Val k \<and> k \<noteq> []
      \<and> readings p = Val rs
      \<and> (fst (select_device k b) = Inl err \<or> fst (select_device k b) = Inr None)"
  then show "fst (handler req b) = \<lparr>status = 401, payload = Error_body ''Invalid device key''\<rparr>"
    using lookup_without_device [of req p k rs b err] by simp
next
  assume "next_event (pending b) = Fault"
  then show "fst (select_device k b) = Inl Store_unavailable"
    by (simp add: select_device_def begin_call_def Let_def)
next
  show "status (fst (handler req b)) = 500 \<longleftrightarrow> (\<exists>ex. fst (handler_try req b) = Inl ex)"
  proof (cases "handler_try req b")
    case (Pair res b1)
    show ?thesis
    proof (cases res)
      case (Inl ex)
      with Pair show ?thesis
        by (auto simp: handler_def handler_try_def)
    next
      case (Inr resp)
      have "status resp \<noteq> 500"
        using Pair Inr
        by (auto simp: handler_try_def split: if_splits option.splits js.splits prod.splits sum.splits)
      with Pair Inr show ?thesis
        by (simp add: handler_def)
    qed
  qed
qed

theorem lookup_failure_is_401_witness:
  "next_event (pending (board\<lparr>pending := [Fault]\<rparr>)) = Fault
   \<and> fst (select_device ''abc123'' (board\<lparr>pending := [Fault]\<rparr>)) = Inl Store_unavailable
   \<and> fst (handler (post ''abc123'' [entry ''hum'' 55]) (board\<lparr>pending := [Fault]\<rparr>)) =
       \<lparr>status = 401, payload = Error_body ''Invalid device key''\<rparr>
   \<and> fst (handler (post ''abc123'' [entry ''hum'' 55, Null]) board) = \<lparr>status = 500, payload = Server_error\<rparr>
   \<and> fst (handler_try (post ''abc123'' [entry ''hum'' 55, Null]) board) = Inl Type_error
   \<and> fst (handler \<lparr>req_method = ''POST'', json = None\<rparr> board) = \<lparr>status = 500, payload = Server_error\<rparr>"
proof -
  let ?b = "board\<lparr>pending := [Fault]\<rparr>"
  let ?rs = "[entry ''hum'' 55]"
  have t: "fst (handler_try (post ''abc123'' [entry ''hum'' 55, Null]) board) = Inl Type_error"
    by (simp add: ingest_defs sample_defs)
  have j: "fst (handler \<lparr>req_method = ''POST'', json = None\<rparr> board) = \<lparr>status = 500, payload = Server_error\<rparr>"
    by (simp add: handler_def handler_try_def)
  have s: "fst (handler (post ''abc123'' [entry ''hum'' 55, Null]) board) = \<lparr>status = 500, payload = Server_error\<rparr>"
    by (simp add: ingest_defs sample_defs)
  from lookup_failure_is_401 [where req = "post ''abc123'' ?rs" and b = ?b and k = "''abc123''"
      and p = "\<lparr>device_key = Val ''abc123'', readings = Val ?rs\<rparr>" and rs = ?rs
      and err = Store_unavailable]
  show ?thesis using t j s by (simp add: post_def board_def)
qed

section \<open>Properties of the traffic simulator\<close>

lemmas sim_defs = startSimulator_def stopSimulator_def tick_def fire_def sendReading_def
  setInterval_def clearInterval_def clear_if_set_def running_in_def cleanup_def unmount_def
  mounted_def generateValue_def baseline_def toLowerCase_def lower_char_def Let_def

lemma generateValue_nonneg: "0 \<le> generateValue ty prev rb rv"
  by (simp add: generateValue_def Let_def)

lemma generateValue_step:
  assumes "0 \<le> rv" "rv < 1" "0 \<le> p"
  shows "\<bar>generateValue ty (Some p) rb rv - p\<bar> \<le> 1"
  using assms by (simp add: generateValue_def Let_def max_def abs_if)

lemma walk_length: "length (walk ty p rs) = length rs"
  by (induction rs arbitrary: p) (simp_all add: Let_def)

lemma walk_nonneg: "v \<in> set (walk ty p rs) \<Longrightarrow> 0 \<le> v"
  by (induction rs arbitrary: p) (auto simp: Let_def generateValue_nonneg)

lemma walk_steps:
  "0 \<le> p \<Longrightarrow> \<forall>r\<in>set rs. 0 \<le> r \<and> r < 1 \<Longrightarrow> unit_steps (p # walk ty p rs)"
proof (induction rs arbitrary: p)
  case Nil
  then show ?case by simp
next
  case (Cons r rs)
  let ?v = "generateValue ty (Some p) 0 r"
  have "\<bar>?v - p\<bar> \<le> 1" using Cons.prems by (simp add: generateValue_step)
  moreover have "unit_steps (?v # walk ty ?v rs)"
    using Cons.IH [of ?v] Cons.prems by (simp add: generateValue_nonneg)
  ultimately show ?case by (simp add: Let_def)
qed

lemma tick_present:
  assumes "map_of (simulators w) sid = Some c"
  shows "outbox (tick sid ty rv w) =
           outbox w @ [Table_insert ''readings'' sid (generateValue ty (Some (currentValue c)) 0 rv)]"
    and "map_of (simulators (tick sid ty rv w)) sid =
           Some (c\<lparr>currentValue := generateValue ty (Some (currentValue c)) 0 rv\<rparr>)"
  using assms by (simp_all add: tick_def sendReading_def Let_def update_conv')

lemma ticks_outbox:
  "map_of (simulators w) sid = Some c \<Longrightarrow>
   outbox (ticks sid ty rs w) =
     outbox w @ map (Table_insert ''readings'' sid) (walk ty (currentValue c) rs)"
proof (induction rs arbitrary: w c)
  case Nil
  then show ?case by simp
next
  case (Cons r rs)
  let ?v = "generateValue ty (Some (currentValue c)) 0 r"
  have "map_of (simulators (tick sid ty r w)) sid = Some (c\<lparr>currentValue := ?v\<rparr>)"
    using Cons.prems by (rule tick_present(2))
  from Cons.IH [OF this] show ?case
    using Cons.prems by (simp add: tick_present(1) Let_def)
qed

lemma sent_values_inserts: "sent_values (map (Table_insert t s) vs) = vs"
  by (induction vs) simp_all

lemma start_fresh:
  assumes "\<not> running_in snap sid"
  shows "outbox (startSimulator snap did sid nm ty un rb rv w) =
           outbox w @ [Table_insert ''readings'' sid (generateValue ty None rb rv)]"
    and "\<exists>c. map_of (simulators (startSimulator snap did sid nm ty un rb rv w)) sid = Some c
             \<and> currentValue c = generateValue ty None rb rv"
  using assms
  by (simp_all add: startSimulator_def sendReading_def setInterval_def Let_def update_conv')

text \<open>
  \<^bold>\<open>C3\<close>, as the specification states it: every reading the simulator produces, the initial
  one and each tick's, is submitted through the ingestion endpoint. This fails: after a
  start and one tick of its timer, the outbound calls are not all requests to the ingestion
  function.
\<close>

theorem simulator_bypasses_ingestion:
  "\<not> list_all via_ingestion (outbox (fire 1 (3/4) humidity_run))"
  by (simp add: humidity_run_def sim_defs)

text \<open>
  \<^bold>\<open>C3\<close>, amended: every reading the simulator produces is handed by \<^verbatim>\<open>sendReading\<close> to an
  insert into the table \<^verbatim>\<open>readings\<close>, with the sensor id the simulator was started for. A
  start that is not rejected sends exactly the initial value, a tick of a sensor present in
  the map sends exactly the next value, and neither sends anything else.
\<close>

theorem simulator_inserts_into_readings:
  "outbox (startSimulator snap did sid nm ty un rb rv w) =
     outbox w @ (if running_in snap sid then []
                 else [Table_insert ''readings'' sid (generateValue ty None rb rv)])
   \<and> outbox (tick sid ty rv w) =
     outbox w @ (case map_of (simulators w) sid of
                   None \<Rightarrow> []
                 | Some c \<Rightarrow> [Table_insert ''readings'' sid
                                (generateValue ty (Some (currentValue c)) 0 rv)])"
  by (simp add: startSimulator_def tick_def sendReading_def setInterval_def Let_def
      split: option.split)

text \<open>
  \<^bold>\<open>C4\<close>: at the provider's teardown every timer still armed for a sensor of the
  running-state map is cancelled. The cleanup reads the map of the first render, which is
  empty, so it cancels nothing: with one sensor started, its timer is still armed after the
  teardown. The same cleanup run on the current map would have cancelled it.
\<close>

theorem unmount_leaves_timer_armed:
  "armed humidity_run = [\<lparr>handle = 1, timer_sensor = ''s1'', timer_type = ''humidity''\<rparr>]
   \<and> armed (unmount humidity_run) =
       [\<lparr>handle = 1, timer_sensor = ''s1'', timer_type = ''humidity''\<rparr>]
   \<and> armed (cleanup (simulators humidity_run) humidity_run) = []"
  by (simp add: humidity_run_def sim_defs)

text \<open>
  \<^bold>\<open>C6\<close>: \<^verbatim>\<open>startSimulator\<close> for a sensor that is already running is a no-op, so that a sensor
  never has two timers. The guard reads the \<^verbatim>\<open>simulators\<close> of the render that created the
  function, not the state. With the sensor running, a call through the function of the
  first render passes the guard: it arms a second timer for the sensor and overwrites the
  handle in the entry, so a later stop clears the second timer only and the first stays
  armed. The same call through the function of the current render changes nothing.
\<close>

theorem stale_start_arms_second_timer:
  "running_in (simulators humidity_run) ''s1''
   \<and> armed stale_restart =
       [\<lparr>handle = 1, timer_sensor = ''s1'', timer_type = ''humidity''\<rparr>,
        \<lparr>handle = 2, timer_sensor = ''s1'', timer_type = ''humidity''\<rparr>]
   \<and> armed (stopSimulator (simulators stale_restart) ''s1'' stale_restart) =
       [\<lparr>handle = 1, timer_sensor = ''s1'', timer_type = ''humidity''\<rparr>]
   \<and> startSimulator (simulators humidity_run) ''d1'' ''s1'' ''Humidity'' ''humidity'' ''%''
        (1/3) (2/3) humidity_run = humidity_run"
  by (simp add: stale_restart_def humidity_run_def sim_defs)

text \<open>
  \<^bold>\<open>C7\<close>: a tick that runs when its sensor has no entry in the map, in particular after
  \<^verbatim>\<open>stopSimulator\<close> removed it, changes nothing: the map stays as it is, the entry is not put
  back, and no reading is sent.
\<close>

theorem tick_after_stop_noop:
  "(map_of (simulators w) sid = None \<longrightarrow> tick sid ty rv w = w)
   \<and> tick sid ty rv (stopSimulator snap sid w) = stopSimulator snap sid w"
  by (simp add: tick_def stopSimulator_def delete_conv' Let_def)

theorem tick_after_stop_noop_witness:
  "map_of (simulators (stopSimulator (simulators humidity_run) ''s1'' humidity_run)) ''s1'' = None
   \<and> tick ''s1'' ''humidity'' (3/4) (stopSimulator (simulators humidity_run) ''s1'' humidity_run)
       = stopSimulator (simulators humidity_run) ''s1'' humidity_run
   \<and> outbox (stopSimulator (simulators humidity_run) ''s1'' humidity_run) =
       [Table_insert ''readings'' ''s1'' (119/2)]"
  using tick_after_stop_noop [of "stopSimulator (simulators humidity_run) ''s1'' humidity_run"
      "''s1''" "''humidity''" "3/4" "simulators humidity_run"]
  by (simp add: humidity_run_def sim_defs)

text \<open>
  \<^bold>\<open>C9\<close>: a start followed by \<open>k\<close> ticks sends \<open>k + 1\<close> values, none of them negative, each
  within one unit of the one before it. The draws of \<^verbatim>\<open>Math.random()\<close> for the ticks lie in
  \<open>[0, 1)\<close>; numbers are reals, so the rounding of floating-point addition is not part of
  the statement.
\<close>

theorem simulated_values_bounded:
  assumes "\<not> running_in snap sid" and "\<forall>r\<in>set rvs. 0 \<le> r \<and> r < 1"
  shows "let w' = ticks sid ty rvs (startSimulator snap did sid nm ty un rb rv w);
             vs = sent_values (drop (length (outbox w)) (outbox w'))
         in length vs = Suc (length rvs) \<and> (\<forall>v\<in>set vs. 0 \<le> v) \<and> unit_steps vs"
proof -
  let ?w0 = "startSimulator snap did sid nm ty un rb rv w"
  let ?v0 = "generateValue ty None rb rv"
  obtain c where c: "map_of (simulators ?w0) sid = Some c" "currentValue c = ?v0"
    using start_fresh(2) [OF assms(1)] by blast
  have "outbox (ticks sid ty rvs ?w0) =
        outbox w @ map (Table_insert ''readings'' sid) (?v0 # walk ty ?v0 rvs)"
    using ticks_outbox [OF c(1)] c(2) start_fresh(1) [OF assms(1)] by simp
  then have vs: "sent_values (drop (length (outbox w)) (outbox (ticks sid ty rvs ?w0))) =
                 ?v0 # walk ty ?v0 rvs"
    by (simp add: sent_values_inserts del: list.map)
  have "unit_steps (?v0 # walk ty ?v0 rvs)"
    using walk_steps [of ?v0 rvs ty] assms(2) by (simp add: generateValue_nonneg)
  moreover have "\<forall>v\<in>set (?v0 # walk ty ?v0 rvs). 0 \<le> v"
    by (auto simp: generateValue_nonneg walk_nonneg)
  ultimately show ?thesis
    unfolding Let_def vs by (simp add: walk_length)
qed

theorem simulated_values_bounded_witness:
  "\<not> running_in (simulators mounted) ''s2''
   \<and> list_all (\<lambda>r. 0 \<le> r \<and> r < 1) [0, 3/4, 1/2 :: real]
   \<and> sent_values (outbox (ticks ''s2'' ''Light'' [0, 3/4, 1/2] light_run)) = [0, 0, 1/2, 1/2]
   \<and> (let vs = sent_values (drop (length (outbox mounted))
                   (outbox (ticks ''s2'' ''Light'' [0, 3/4, 1/2] light_run)))
      in length vs = 4 \<and> list_all (\<lambda>v. 0 \<le> v) vs \<and> unit_steps vs)"
proof -
  have h1: "\<not> running_in (simulators mounted) ''s2''"
    by (simp add: running_in_def mounted_def)
  have h2: "\<forall>r\<in>set [0, 3/4, 1/2 :: real]. 0 \<le> r \<and> r < 1"
    by simp
  have v: "sent_values (outbox (ticks ''s2'' ''Light'' [0, 3/4, 1/2] light_run)) = [0, 0, 1/2, 1/2]"
    by (simp add: light_run_def sim_defs)
  from simulated_values_bounded [where snap = "simulators mounted" and sid = "''s2''"
      and rvs = "[0, 3/4, 1/2]" and did = "''d1''" and nm = "''Lux''" and ty = "''Light''"
      and un = "''lx''" and rb = 0 and rv = 0 and w = mounted, OF h1 h2]
  show ?thesis using h1 v
    by (simp add: light_run_def Let_def list_all_iff)
qed

end
